theory Spec2Isabelle
  imports Main
begin

section \<open>JavaScript strings\<close>

text \<open>
  A JavaScript string is a sequence of UTF-16 code units. A code unit is modelled by its
  numeric value, a string by the list of its code units. \<open>js\<close> turns an ASCII literal
  into such a string.
\<close>

type_synonym code_unit = nat
type_synonym jstring = "code_unit list"

definition js :: "string \<Rightarrow> jstring" where
  "js s = map of_char s"

text \<open>
  The class \<^verbatim>\<open>\s\<close> of a regular expression, which is also what
  \<^verbatim>\<open>String.prototype.trim\<close> strips: WhiteSpace and LineTerminator of ECMAScript
  (TAB, LF, VT, FF, CR, SP, NBSP, U+1680, U+2000 to U+200A, LS, PS, U+202F, U+205F,
  U+3000, BOM).
\<close>

definition is_space :: "code_unit \<Rightarrow> bool" where
  "is_space c =
     (c = 9 \<or> c = 10 \<or> c = 11 \<or> c = 12 \<or> c = 13 \<or> c = 32 \<or> c = 160 \<or> c = 5760 \<or>
      (8192 \<le> c \<and> c \<le> 8202) \<or> c = 8232 \<or> c = 8233 \<or> c = 8239 \<or> c = 8287 \<or>
      c = 12288 \<or> c = 65279)"

text \<open>The characters that \<^verbatim>\<open>.\<close> does not match: LF, CR, LS, PS.\<close>

definition is_line_terminator :: "code_unit \<Rightarrow> bool" where
  "is_line_terminator c = (c = 10 \<or> c = 13 \<or> c = 8232 \<or> c = 8233)"

text \<open>The class \<^verbatim>\<open>\d\<close>: the ASCII digits.\<close>

definition is_digit :: "code_unit \<Rightarrow> bool" where
  "is_digit c = (48 \<le> c \<and> c \<le> 57)"

text \<open>
  Case folding of the flag \<^verbatim>\<open>i\<close> (without \<^verbatim>\<open>u\<close>): a code unit is
  compared by its upper case, and a code unit of 128 or more never folds to one below
  128. Every literal of the patterns below is ASCII, so a literal and a code unit agree
  under the flag exactly when their ASCII upper cases agree.
\<close>

definition ascii_upper :: "code_unit \<Rightarrow> code_unit" where
  "ascii_upper c = (if 97 \<le> c \<and> c \<le> 122 then c - 32 else c)"

text \<open>\<^verbatim>\<open>String.prototype.trim\<close>.\<close>

definition trim :: "jstring \<Rightarrow> jstring" where
  "trim s = rev (dropWhile is_space (rev (dropWhile is_space s)))"

text \<open>\<^verbatim>\<open>a || b\<close> on strings that may be undefined: the empty string is falsy.\<close>

definition truthy :: "jstring option \<Rightarrow> bool" where
  "truthy v = (case v of None \<Rightarrow> False | Some s \<Rightarrow> s \<noteq> [])"

section \<open>Regular expressions\<close>

text \<open>
  The six regular expressions of the program are sequences of single-character atoms,
  each with a quantifier, and at most one capture group, which wraps one quantified
  atom. \<open>Node a q g\<close> is the atom \<open>a\<close> under the quantifier \<open>q\<close>, inside the capture
  group when \<open>g\<close> holds.
\<close>

datatype atom = Lit code_unit | Digit | NotSpace | Dot

datatype quant = Once | Plus | Star | LazyStar

datatype node = Node atom quant bool

record regex =
  nodes :: "node list"
  ignoreCase :: bool

fun accepts :: "bool \<Rightarrow> atom \<Rightarrow> code_unit \<Rightarrow> bool" where
  "accepts ic (Lit x) c = (if ic then ascii_upper c = ascii_upper x else c = x)"
| "accepts ic Digit c = is_digit c"
| "accepts ic NotSpace c = (\<not> is_space c)"
| "accepts ic Dot c = (\<not> is_line_terminator c)"

fun grow :: "code_unit \<Rightarrow> jstring list \<Rightarrow> jstring list" where
  "grow c [] = []"
| "grow c (seg # segs) = (c # seg) # segs"

text \<open>
  The backtracking matcher at one start position. The result lists, node by node, what
  each node consumed. A greedy quantifier first tries to take one more character and
  falls back to the rest of the pattern; a lazy one first tries the rest of the pattern
  and takes one more character only when that fails.
\<close>

fun match_here :: "bool \<Rightarrow> node list \<Rightarrow> jstring \<Rightarrow> jstring list option" where
  "match_here ic [] s = Some []"
| "match_here ic (Node a Once g # r) [] = None"
| "match_here ic (Node a Once g # r) (c # s) =
     (if accepts ic a c then map_option (Cons [c]) (match_here ic r s) else None)"
| "match_here ic (Node a Plus g # r) [] = None"
| "match_here ic (Node a Plus g # r) (c # s) =
     (if accepts ic a c then map_option (grow c) (match_here ic (Node a Star g # r) s)
      else None)"
| "match_here ic (Node a Star g # r) [] = map_option (Cons []) (match_here ic r [])"
| "match_here ic (Node a Star g # r) (c # s) =
     (if accepts ic a c then
        (case match_here ic (Node a Star g # r) s of
           Some segs \<Rightarrow> Some (grow c segs)
         | None \<Rightarrow> map_option (Cons []) (match_here ic r (c # s)))
      else map_option (Cons []) (match_here ic r (c # s)))"
| "match_here ic (Node a LazyStar g # r) [] = map_option (Cons []) (match_here ic r [])"
| "match_here ic (Node a LazyStar g # r) (c # s) =
     (case match_here ic r (c # s) of
        Some segs \<Rightarrow> Some ([] # segs)
      | None \<Rightarrow>
          (if accepts ic a c
           then map_option (grow c) (match_here ic (Node a LazyStar g # r) s)
           else None))"

text \<open>The leftmost match: every start position in turn, the end of the text included.\<close>

fun search :: "bool \<Rightarrow> node list \<Rightarrow> jstring \<Rightarrow> jstring list option" where
  "search ic ns [] = match_here ic ns []"
| "search ic ns (c # s) =
     (case match_here ic ns (c # s) of
        Some segs \<Rightarrow> Some segs
      | None \<Rightarrow> search ic ns s)"

fun is_group :: "node \<Rightarrow> bool" where
  "is_group (Node a q g) = g"

text \<open>What the capture group consumed; undefined when the pattern has no group.\<close>

definition capture_group :: "node list \<Rightarrow> jstring list \<Rightarrow> jstring option" where
  "capture_group ns segs =
     (case filter (is_group \<circ> fst) (zip ns segs) of
        [] \<Rightarrow> None
      | ng # _ \<Rightarrow> Some (snd ng))"

text \<open>
  \<^verbatim>\<open>output.match(pattern)\<close> for a pattern without the flag \<^verbatim>\<open>g\<close>: null, or
  the array of the whole match (index 0) and the capture group (index 1).
\<close>

record match_array =
  whole :: jstring
  group1 :: "jstring option"

definition js_match :: "regex \<Rightarrow> jstring \<Rightarrow> match_array option" where
  "js_match re s =
     (case search (ignoreCase re) (nodes re) s of
        None \<Rightarrow> None
      | Some segs \<Rightarrow>
          Some \<lparr>whole = concat segs, group1 = capture_group (nodes re) segs\<rparr>)"

definition lits :: "string \<Rightarrow> node list" where
  "lits s = map (\<lambda>ch. Node (Lit (of_char ch)) Once False) s"

section \<open>The log scanner\<close>

text \<open>\<^verbatim>\<open>/https:\/\/login\.microsoftonline\.com\/[^\s]+/\<close>\<close>

definition urlPattern :: regex where
  "urlPattern =
     \<lparr>nodes = lits ''https://login.microsoftonline.com/'' @ [Node NotSpace Plus False],
      ignoreCase = False\<rparr>"

text \<open>\<^verbatim>\<open>/https:\/\/[^\s]*login[^\s]*/\<close>\<close>

definition altPattern :: regex where
  "altPattern =
     \<lparr>nodes = lits ''https://'' @ [Node NotSpace Star False] @ lits ''login'' @
               [Node NotSpace Star False],
      ignoreCase = False\<rparr>"

text \<open>
  \<^verbatim>\<open>extractOAuthUrl\<close>. The argument is a string or null (\<open>None\<close>);
  \<^verbatim>\<open>!output\<close> holds for null and for the empty string.
\<close>

definition extractOAuthUrl :: "jstring option \<Rightarrow> jstring option" where
  "extractOAuthUrl output =
     (case output of
        None \<Rightarrow> None
      | Some s \<Rightarrow>
          if s = [] then None
          else (case js_match urlPattern s of
                  Some m \<Rightarrow> Some (whole m)
                | None \<Rightarrow>
                    (case js_match altPattern s of
                       Some altMatch \<Rightarrow> Some (whole altMatch)
                     | None \<Rightarrow> None)))"

text \<open>
  \<^verbatim>\<open>/localhost:(\d+)/\<close>, \<^verbatim>\<open>/127\.0\.0\.1:(\d+)/\<close>,
  \<^verbatim>\<open>/port (\d+)/i\<close>, \<^verbatim>\<open>/server.*?(\d+)/i\<close>
\<close>

definition localhostPattern :: regex where
  "localhostPattern =
     \<lparr>nodes = lits ''localhost:'' @ [Node Digit Plus True], ignoreCase = False\<rparr>"

definition loopbackPattern :: regex where
  "loopbackPattern =
     \<lparr>nodes = lits ''127.0.0.1:'' @ [Node Digit Plus True], ignoreCase = False\<rparr>"

definition portPattern :: regex where
  "portPattern = \<lparr>nodes = lits ''port '' @ [Node Digit Plus True], ignoreCase = True\<rparr>"

definition serverPattern :: regex where
  "serverPattern =
     \<lparr>nodes = lits ''server'' @ [Node Dot LazyStar False, Node Digit Plus True],
      ignoreCase = True\<rparr>"

definition patterns :: "regex list" where
  "patterns = [localhostPattern, loopbackPattern, portPattern, serverPattern]"

text \<open>
  \<^verbatim>\<open>parseInt(string)\<close> with no radix: leading white space is skipped, a sign is
  read, the prefix 0x or 0X selects radix 16, and the longest run of digits of the radix
  is the number; no digit gives NaN (\<open>None\<close>). The number is kept exact: a JavaScript
  number rounds integers beyond \<open>2^53\<close>, but rounding is monotone and keeps every
  integer up to 65535, so the comparisons with 1000 and 65535 and every value that
  passes them are the exact ones.
\<close>

definition digit_value :: "code_unit \<Rightarrow> nat" where
  "digit_value c =
     (if 48 \<le> c \<and> c \<le> 57 then c - 48
      else if 97 \<le> c \<and> c \<le> 102 then c - 87
      else if 65 \<le> c \<and> c \<le> 70 then c - 55
      else 36)"

definition parseInt :: "jstring \<Rightarrow> int option" where
  "parseInt string =
     (let s = dropWhile is_space string;
          negative = (s \<noteq> [] \<and> hd s = of_char CHR ''-'');
          s1 = (if s \<noteq> [] \<and> (hd s = of_char CHR ''+'' \<or> hd s = of_char CHR ''-'')
                then tl s else s);
          hex = (take 2 s1 = js ''0x'' \<or> take 2 s1 = js ''0X'');
          radix = (if hex then 16 else 10);
          s2 = (if hex then drop 2 s1 else s1);
          z = takeWhile (\<lambda>c. digit_value c < radix) s2
      in if z = [] then None
         else Some ((if negative then - 1 else 1) *
                    int (foldl (\<lambda>n c. n * radix + digit_value c) 0 z)))"

text \<open>
  The loop of \<^verbatim>\<open>extractAuthPort\<close> over the patterns, with the
  \<^verbatim>\<open>return 3978\<close> that follows it. \<^verbatim>\<open>match && match[1]\<close> holds
  when there is a match whose group is a non-empty string; NaN fails both comparisons.
\<close>

fun for_patterns :: "regex list \<Rightarrow> jstring \<Rightarrow> int" where
  "for_patterns [] output = 3978"
| "for_patterns (pattern # rest) output =
     (case js_match pattern output of
        None \<Rightarrow> for_patterns rest output
      | Some m \<Rightarrow>
          (case group1 m of
             None \<Rightarrow> for_patterns rest output
           | Some g \<Rightarrow>
               if g = [] then for_patterns rest output
               else (case parseInt g of
                       None \<Rightarrow> for_patterns rest output
                     | Some port \<Rightarrow>
                         if port > 1000 \<and> port < 65535 then port
                         else for_patterns rest output)))"

definition extractAuthPort :: "jstring option \<Rightarrow> int" where
  "extractAuthPort output =
     (case output of
        None \<Rightarrow> 3978
      | Some s \<Rightarrow> if s = [] then 3978 else for_patterns patterns s)"

section \<open>Command execution\<close>

text \<open>
  A promise is pending, resolved with a value, or rejected with one; an
  \<^verbatim>\<open>await\<close> of a rejected promise throws.
\<close>

datatype 'a promise = Pending | Resolved 'a | Rejected 'a

text \<open>
  The \<^verbatim>\<open>code\<close> of a failure: an exit status, the name of a system error such as
  ENOENT, or null (also standing for undefined).
\<close>

datatype exit_code = Number int | Name jstring | Null

record command_result =
  success :: bool
  stdout :: jstring
  stderr :: jstring
  exitCode :: exit_code

text \<open>
  What \<^verbatim>\<open>execAsync\<close> does with a command: it fulfils with the two output
  texts, or throws an error that has a message and may carry the outputs and a code.
\<close>

record exec_error =
  message :: jstring
  error_stdout :: "jstring option"
  error_stderr :: "jstring option"
  code :: exit_code

datatype exec_outcome = Fulfilled jstring jstring | Thrown exec_error

text \<open>
  The lines the program prints, one constructor for each format. The public URL of a
  line is \<open>None\<close> when the model has no text for the port.
\<close>

datatype line =
    Executing jstring
  | ExecutingStreaming jstring
  | WorkingDirectory jstring
  | CommandFailed jstring
  | AuthLogContents
  | StartAuthLog
  | Raw jstring
  | EndAuthLog
  | ExtractionSuccessful
  | OAuthUrl jstring
  | AuthServerPort int
  | PublicAuthUrl "jstring option"
  | AuthenticationInstructions
  | Instruction nat
  | LogSavedTo jstring
  | NoOAuthUrlFound
  | LogPreview jstring
  | CouldNotReadAuthLog jstring
  | CheckingProcesses
  | ProcessStatus jstring

text \<open>
  The effects of the program on its surroundings, in the order it issues them: a line on
  the console, a chunk of a child's output echoed to the parent's stream, a command given
  to the shell, a copy asked of the file system.
\<close>

datatype effect =
    Print line
  | EchoStdout jstring
  | EchoStderr jstring
  | Exec jstring jstring
  | CopyFile jstring jstring

text \<open>
  The surroundings: the files by path, the copies the file system refuses, what the shell
  answers to a command in a working directory, the messages of the file system's errors,
  the process's working directory and environment, and the effects so far.
\<close>

record world =
  files :: "jstring \<rightharpoonup> jstring"
  refuses_copy :: "jstring \<Rightarrow> bool"
  shell :: "jstring \<Rightarrow> jstring \<Rightarrow> exec_outcome"
  fs_message :: "jstring \<Rightarrow> jstring"
  process_cwd :: jstring
  process_env :: "string \<rightharpoonup> jstring"
  effects :: "effect list"

definition emit :: "effect list \<Rightarrow> world \<Rightarrow> world" where
  "emit es w = w\<lparr>effects := effects w @ es\<rparr>"

text \<open>\<^verbatim>\<open>a || b\<close> where \<open>a\<close> is a string or undefined.\<close>

definition or_else :: "jstring option \<Rightarrow> jstring \<Rightarrow> jstring" where
  "or_else a b = (case a of None \<Rightarrow> b | Some s \<Rightarrow> if s = [] then b else s)"

text \<open>\<^verbatim>\<open>error.code || 1\<close>: null, 0 and the empty string are falsy.\<close>

definition code_or_1 :: "exit_code \<Rightarrow> exit_code" where
  "code_or_1 c =
     (case c of
        Null \<Rightarrow> Number 1
      | Number n \<Rightarrow> if n = 0 then Number 1 else Number n
      | Name s \<Rightarrow> if s = [] then Number 1 else Name s)"

text \<open>
  \<^verbatim>\<open>executeCommand(command, options)\<close>; \<open>cwd\<close> is \<^verbatim>\<open>options.cwd\<close>. The
  function is \<^verbatim>\<open>async\<close>: it returns a promise, resolved by each
  \<^verbatim>\<open>return\<close>. Everything that can throw stands inside its \<^verbatim>\<open>try\<close>.
\<close>

definition executeCommand ::
  "world \<Rightarrow> jstring \<Rightarrow> jstring option \<Rightarrow> world \<times> command_result promise" where
  "executeCommand w command cwd =
     (let workingDir = or_else cwd (process_cwd w);
          w1 = emit ([Print (Executing command)] @
                     (if workingDir \<noteq> process_cwd w then [Print (WorkingDirectory workingDir)]
                      else []) @
                     [Exec command workingDir]) w
      in case shell w command workingDir of
           Fulfilled out err \<Rightarrow>
             (w1, Resolved \<lparr>success = True, stdout = trim out, stderr = trim err,
                            exitCode = Number 0\<rparr>)
         | Thrown error \<Rightarrow>
             (emit [Print (CommandFailed (message error))] w1,
              Resolved \<lparr>success = False, stdout = or_else (error_stdout error) [],
                        stderr = or_else (error_stderr error) (message error),
                        exitCode = code_or_1 (code error)\<rparr>))"

text \<open>
  \<^verbatim>\<open>executeCommandStreaming\<close>. The child process shows itself to the program by the
  events it emits, which the four handlers receive in order: a chunk of its standard
  output or of its standard error, its close with the exit status (null when a signal
  ended it), or an error with its message. A promise settles once: \<^verbatim>\<open>resolve\<close>
  and \<^verbatim>\<open>reject\<close> do nothing to a settled promise.
\<close>

datatype child_event =
    StdoutData jstring
  | StderrData jstring
  | Close "int option"
  | Error jstring

record streaming =
  stdout_acc :: jstring
  stderr_acc :: jstring
  settled :: "command_result promise"
  echoed :: "effect list"

definition settle :: "command_result promise \<Rightarrow> streaming \<Rightarrow> streaming" where
  "settle p st = (if settled st = Pending then st\<lparr>settled := p\<rparr> else st)"

fun handle_event :: "streaming \<Rightarrow> child_event \<Rightarrow> streaming" where
  "handle_event st (StdoutData output) =
     st\<lparr>stdout_acc := stdout_acc st @ output, echoed := echoed st @ [EchoStdout output]\<rparr>"
| "handle_event st (StderrData output) =
     st\<lparr>stderr_acc := stderr_acc st @ output, echoed := echoed st @ [EchoStderr output]\<rparr>"
| "handle_event st (Close c) =
     settle (Resolved \<lparr>success = (c = Some 0), stdout = trim (stdout_acc st),
                       stderr = trim (stderr_acc st),
                       exitCode = (case c of None \<Rightarrow> Null | Some n \<Rightarrow> Number n)\<rparr>) st"
| "handle_event st (Error msg) =
     settle (Rejected \<lparr>success = False, stdout = stdout_acc st, stderr = msg,
                       exitCode = Number 1\<rparr>) st"

definition executeCommandStreaming ::
  "jstring \<Rightarrow> jstring \<Rightarrow> jstring option \<Rightarrow> child_event list \<Rightarrow> streaming" where
  "executeCommandStreaming pcwd command cwd events =
     (let workingDir = or_else cwd pcwd
      in foldl handle_event
           \<lparr>stdout_acc = [], stderr_acc = [], settled = Pending,
            echoed = [Print (ExecutingStreaming command)] @
                     (if workingDir \<noteq> pcwd then [Print (WorkingDirectory workingDir)]
                      else [])\<rparr>
           events)"

section \<open>Port forwarding\<close>

text \<open>
  A number in a template literal. A JavaScript number holds every integer of magnitude up
  to \<open>2^53\<close> exactly and prints it in plain decimal, with a minus sign when negative.
  Beyond that bound a number is rounded and may print in another form (\<open>2^64\<close> prints
  as 18446744073709552000, \<open>10^21\<close> as 1e+21): there the model gives no text
  (\<open>None\<close>).
\<close>

fun digits :: "nat \<Rightarrow> jstring" where
  "digits n = (if n < 10 then [48 + n] else digits (n div 10) @ [48 + n mod 10])"

declare digits.simps [simp del]

definition show_int :: "int \<Rightarrow> jstring" where
  "show_int n = (if n < 0 then of_char CHR ''-'' # digits (nat (- n)) else digits (nat n))"

definition number_to_string :: "int \<Rightarrow> jstring option" where
  "number_to_string n = (if \<bar>n\<bar> \<le> 9007199254740992 then Some (show_int n) else None)"

text \<open>
  \<^verbatim>\<open>generatePortForwardingUrl\<close>, with \<^verbatim>\<open>process.env\<close> as its first argument.
  \<open>portText\<close> is what the template literals print for the port; the result is \<open>None\<close>
  for a port beyond the numbers that \<open>number_to_string\<close> covers.
\<close>

definition generatePortForwardingUrl :: "(string \<rightharpoonup> jstring) \<Rightarrow> int \<Rightarrow> jstring option" where
  "generatePortForwardingUrl env port =
     (case number_to_string port of
        None \<Rightarrow> None
      | Some portText \<Rightarrow>
          Some
            (let codespaceName = env ''CODESPACE_NAME''
             in if truthy codespaceName
                then js ''https://'' @ or_else codespaceName [] @ js ''-'' @ portText @
                     js ''.app.github.dev''
                else
                  (let domain = env ''GITHUB_CODESPACES_PORT_FORWARDING_DOMAIN''
                   in if truthy domain
                      then js ''https://'' @ or_else domain [] @ js ''-'' @ portText @
                           js ''.githubpreview.dev''
                      else js ''http://localhost:'' @ portText)))"

section \<open>The driving sequence: reading and archiving the log\<close>

text \<open>
  \<^verbatim>\<open>path.join\<close> belongs to the platform, not to the program: the definitions below
  take it as the parameter \<open>join\<close>.
\<close>

definition WORKSPACE_ROOT :: "(string \<rightharpoonup> jstring) \<Rightarrow> jstring" where
  "WORKSPACE_ROOT env = or_else (env ''WORKSPACE_ROOT'') (js ''/workspaces/m365-test'')"

definition AGENT_PATH :: "(string \<rightharpoonup> jstring) \<Rightarrow> jstring" where
  "AGENT_PATH env = or_else (env ''ATK_AGENT_PATH'') (js ''/workspaces/m365-test/agents/myagent'')"

definition LOGS_PATH ::
  "(jstring \<Rightarrow> jstring \<Rightarrow> jstring) \<Rightarrow> (string \<rightharpoonup> jstring) \<Rightarrow> jstring" where
  "LOGS_PATH join env = join (WORKSPACE_ROOT env) (js ''logs'')"

text \<open>\<^verbatim>\<open>.replace(/[:.]/g, '-')\<close>: every colon and every period, left to right.\<close>

fun replace_colon_period :: "jstring \<Rightarrow> jstring" where
  "replace_colon_period [] = []"
| "replace_colon_period (c # s) =
     (if c = of_char CHR '':'' \<or> c = of_char CHR ''.''
      then of_char CHR ''-'' # replace_colon_period s
      else c # replace_colon_period s)"

text \<open>
  Lines 290 and 291: the archival path, from the text \<open>isoString\<close> that
  \<^verbatim>\<open>new Date().toISOString()\<close> returned.
\<close>

definition logFile ::
  "(jstring \<Rightarrow> jstring \<Rightarrow> jstring) \<Rightarrow> (string \<rightharpoonup> jstring) \<Rightarrow> jstring \<Rightarrow> jstring" where
  "logFile join env isoString =
     (let timestamp = replace_colon_period isoString
      in join (LOGS_PATH join env) (js ''auth-'' @ timestamp @ js ''.log''))"

definition authLogPath ::
  "(jstring \<Rightarrow> jstring \<Rightarrow> jstring) \<Rightarrow> (string \<rightharpoonup> jstring) \<Rightarrow> jstring" where
  "authLogPath join env = join (AGENT_PATH env) (js ''auth.log'')"

text \<open>
  \<^verbatim>\<open>fs.readFile\<close>: the error's message on the left, the content on the right.
  \<^verbatim>\<open>fs.copyFile\<close>: the world after the call, with the error's message when it
  throws.
\<close>

definition readFile :: "world \<Rightarrow> jstring \<Rightarrow> jstring + jstring" where
  "readFile w p = (case files w p of None \<Rightarrow> Inl (fs_message w p) | Some content \<Rightarrow> Inr content)"

definition copyFile :: "world \<Rightarrow> jstring \<Rightarrow> jstring \<Rightarrow> world \<times> jstring option" where
  "copyFile w src dst =
     (let w1 = emit [CopyFile src dst] w
      in case files w src of
           None \<Rightarrow> (w1, Some (fs_message w src))
         | Some content \<Rightarrow>
             if refuses_copy w dst then (w1, Some (fs_message w dst))
             else (w1\<lparr>files := (files w1)(dst \<mapsto> content)\<rparr>, None))"

text \<open>How a block of the sequence ends: it goes on, an error escapes it, or it waits for ever.\<close>

datatype completion = Continues | Escapes | Waits

text \<open>The \<^verbatim>\<open>catch\<close> block of step 6 (lines 348 to 357).\<close>

definition testATKExecution_step6_catch ::
  "jstring \<Rightarrow> world \<Rightarrow> world \<times> completion" where
  "testATKExecution_step6_catch error_message w =
     (let w1 = emit [Print (CouldNotReadAuthLog error_message), Print CheckingProcesses] w
      in case executeCommand w1
                (js ''ps aux | grep atk || echo \"No ATK processes found\"'') None of
           (w2, Resolved psResult) \<Rightarrow>
             (if success psResult then emit [Print (ProcessStatus (stdout psResult))] w2 else w2,
              Continues)
         | (w2, Rejected e) \<Rightarrow> (w2, Escapes)
         | (w2, Pending) \<Rightarrow> (w2, Waits))"

text \<open>
  Step 6 from the reading of the log (lines 312 to 357), after the wait of 8 seconds. The
  copy fails when the file system refuses it; the error then reaches the same
  \<^verbatim>\<open>catch\<close> block as a failed read.
\<close>

definition testATKExecution_step6 ::
  "(jstring \<Rightarrow> jstring \<Rightarrow> jstring) \<Rightarrow> jstring \<Rightarrow> world \<Rightarrow> world \<times> completion" where
  "testATKExecution_step6 join isoString w =
     (case readFile w (authLogPath join (process_env w)) of
        Inl error_message \<Rightarrow> testATKExecution_step6_catch error_message w
      | Inr logContent \<Rightarrow>
          (let w1 = emit [Print AuthLogContents, Print StartAuthLog, Print (Raw logContent),
                          Print EndAuthLog] w;
               oauthUrl = extractOAuthUrl (Some logContent);
               authPort = extractAuthPort (Some logContent)
           in if truthy oauthUrl then
                (let w2 = emit [Print ExtractionSuccessful, Print (OAuthUrl (or_else oauthUrl [])),
                                Print (AuthServerPort authPort)] w1;
                     publicAuthUrl = generatePortForwardingUrl (process_env w2) authPort;
                     w3 = emit [Print (PublicAuthUrl publicAuthUrl), Print AuthenticationInstructions,
                                Print (Instruction 1), Print (Instruction 2), Print (Instruction 3),
                                Print (Instruction 4)] w2
                 in case copyFile w3 (authLogPath join (process_env w3))
                           (logFile join (process_env w3) isoString) of
                      (w4, Some error_message) \<Rightarrow> testATKExecution_step6_catch error_message w4
                    | (w4, None) \<Rightarrow>
                        (emit [Print (LogSavedTo (logFile join (process_env w4) isoString))] w4,
                         Continues))
              else
                (emit [Print NoOAuthUrlFound, Print (LogPreview (take 500 logContent))] w1,
                 Continues)))"

section \<open>The scanner as the specification words it\<close>

text \<open>
  The definitions of this section follow the specification, not the program: they speak of
  occurrences in a text, not of regular expressions. The theorems compare them with the
  program's functions.
\<close>

text \<open>The text from each position on, the first position first.\<close>

fun tails :: "'a list \<Rightarrow> 'a list list" where
  "tails [] = [[]]"
| "tails (x # xs) = (x # xs) # tails xs"

text \<open>The first element on which \<open>f\<close> gives a result, with that result.\<close>

fun first_some :: "('a \<Rightarrow> 'b option) \<Rightarrow> 'a list \<Rightarrow> 'b option" where
  "first_some f [] = None"
| "first_some f (x # xs) = (case f x of Some y \<Rightarrow> Some y | None \<Rightarrow> first_some f xs)"

text \<open>
  \<open>t\<close> begins with the word \<open>w\<close>; when \<open>ic\<close> holds, the ASCII letters are compared
  without regard to case.
\<close>

definition begins_with :: "bool \<Rightarrow> jstring \<Rightarrow> jstring \<Rightarrow> bool" where
  "begins_with ic w t =
     list_all2 (\<lambda>x c. if ic then ascii_upper c = ascii_upper x else c = x) w (take (length w) t)"

definition contains :: "jstring \<Rightarrow> jstring \<Rightarrow> bool" where
  "contains w t = list_ex (begins_with False w) (tails t)"

text \<open>The text up to the next white space (or to its end).\<close>

definition up_to_space :: "jstring \<Rightarrow> jstring" where
  "up_to_space t = takeWhile (\<lambda>c. \<not> is_space c) t"

definition login_host :: jstring where
  "login_host = js ''https://login.microsoftonline.com/''"

text \<open>
  The login URL that begins \<open>t\<close>, if one does: the host prefix and what follows it up to
  the next white space, which is at least one character.
\<close>

definition host_url_at :: "jstring \<Rightarrow> jstring option" where
  "host_url_at t =
     (if begins_with False login_host t \<and> up_to_space (drop (length login_host) t) \<noteq> []
      then Some (login_host @ up_to_space (drop (length login_host) t))
      else None)"

text \<open>
  The HTTPS URL with the word login that begins \<open>t\<close>, if one does: \<open>https://\<close> and
  what follows it up to the next white space, when that holds the word.
\<close>

definition login_url_at :: "jstring \<Rightarrow> jstring option" where
  "login_url_at t =
     (if begins_with False (js ''https://'') t \<and>
         contains (js ''login'') (js ''https://'' @ up_to_space (drop 8 t))
      then Some (js ''https://'' @ up_to_space (drop 8 t))
      else None)"

text \<open>
  The same with the host prefix alone: what begins with the prefix and goes to the next
  white space, were it the bare prefix.
\<close>

definition host_prefix_at :: "jstring \<Rightarrow> jstring option" where
  "host_prefix_at t =
     (if begins_with False login_host t
      then Some (login_host @ up_to_space (drop (length login_host) t))
      else None)"

definition prefix_extractLoginUrl :: "jstring option \<Rightarrow> jstring option" where
  "prefix_extractLoginUrl input =
     (case input of
        None \<Rightarrow> None
      | Some t \<Rightarrow>
          (case first_some host_prefix_at (tails t) of
             Some url \<Rightarrow> Some url
           | None \<Rightarrow> first_some login_url_at (tails t)))"

definition spec_extractLoginUrl :: "jstring option \<Rightarrow> jstring option" where
  "spec_extractLoginUrl input =
     (case input of
        None \<Rightarrow> None
      | Some t \<Rightarrow>
          (case first_some host_url_at (tails t) of
             Some url \<Rightarrow> Some url
           | None \<Rightarrow> first_some login_url_at (tails t)))"

text \<open>
  The digits that follow the word \<open>w\<close> at the beginning of \<open>t\<close>, if \<open>t\<close> begins with
  the word and a digit follows it.
\<close>

definition digits_after :: "bool \<Rightarrow> jstring \<Rightarrow> jstring \<Rightarrow> jstring option" where
  "digits_after ic w t =
     (if begins_with ic w t \<and> takeWhile is_digit (drop (length w) t) \<noteq> []
      then Some (takeWhile is_digit (drop (length w) t))
      else None)"

text \<open>
  The first digits on the line after the word server at the beginning of \<open>t\<close>, if \<open>t\<close>
  begins with the word and the rest of the line has a digit.
\<close>

definition digits_after_server :: "jstring \<Rightarrow> jstring option" where
  "digits_after_server t =
     (if begins_with True (js ''server'') t \<and>
         takeWhile is_digit (dropWhile (\<lambda>c. \<not> is_digit c)
           (takeWhile (\<lambda>c. \<not> is_line_terminator c) (drop 6 t))) \<noteq> []
      then Some (takeWhile is_digit (dropWhile (\<lambda>c. \<not> is_digit c)
                   (takeWhile (\<lambda>c. \<not> is_line_terminator c) (drop 6 t))))
      else None)"

fun option_to_list :: "'a option \<Rightarrow> 'a list" where
  "option_to_list None = []"
| "option_to_list (Some x) = [x]"

text \<open>What each of the four patterns captures in a text: the digits of its first occurrence.\<close>

definition captures :: "jstring \<Rightarrow> jstring option list" where
  "captures t =
     [first_some (digits_after False (js ''localhost:'')) (tails t),
      first_some (digits_after False (js ''127.0.0.1:'')) (tails t),
      first_some (digits_after True (js ''port '')) (tails t),
      first_some digits_after_server (tails t)]"

text \<open>The number that decimal digits write.\<close>

definition decimal :: "jstring \<Rightarrow> int" where
  "decimal ds = int (foldl (\<lambda>n c. 10 * n + (c - 48)) 0 ds)"

definition in_range :: "int \<Rightarrow> bool" where
  "in_range n = (1000 < n \<and> n < 65535)"

text \<open>The first capture, in the order of the patterns, whose number is in range; else 3978.\<close>

definition spec_extractPort :: "jstring option \<Rightarrow> int" where
  "spec_extractPort input =
     (case input of
        None \<Rightarrow> 3978
      | Some t \<Rightarrow>
          (case filter in_range (map decimal (concat (map option_to_list (captures t)))) of
             [] \<Rightarrow> 3978
           | n # _ \<Rightarrow> n))"

section \<open>Command execution and archiving as the specification words them\<close>

text \<open>The events that carry output, and the text that a sequence of events accumulates.\<close>

fun is_data :: "child_event \<Rightarrow> bool" where
  "is_data (StdoutData d) = True"
| "is_data (StderrData d) = True"
| "is_data (Close c) = False"
| "is_data (Error msg) = False"

fun stdout_chunk :: "child_event \<Rightarrow> jstring" where
  "stdout_chunk (StdoutData d) = d"
| "stdout_chunk (StderrData d) = []"
| "stdout_chunk (Close c) = []"
| "stdout_chunk (Error msg) = []"

fun stderr_chunk :: "child_event \<Rightarrow> jstring" where
  "stderr_chunk (StdoutData d) = []"
| "stderr_chunk (StderrData d) = d"
| "stderr_chunk (Close c) = []"
| "stderr_chunk (Error msg) = []"

text \<open>The value of an environment variable that is set to a non-empty string.\<close>

definition non_empty :: "jstring option \<Rightarrow> jstring option" where
  "non_empty v = (case v of None \<Rightarrow> None | Some s \<Rightarrow> if s = [] then None else Some s)"

text \<open>
  Concrete surroundings for the examples: \<^verbatim>\<open>path.join\<close> on two plain segments, a
  file system that holds the log of the agent and refuses nothing, a shell that answers
  with empty output, an empty environment.
\<close>

definition plain_join :: "jstring \<Rightarrow> jstring \<Rightarrow> jstring" where
  "plain_join a b = a @ js ''/'' @ b"

definition example_world :: "jstring \<Rightarrow> world" where
  "example_world content =
     \<lparr>files = [js ''/workspaces/m365-test/agents/myagent/auth.log'' \<mapsto> content],
      refuses_copy = (\<lambda>p. False),
      shell = (\<lambda>command cwd. Fulfilled [] []),
      fs_message = (\<lambda>p. js ''ENOENT''),
      process_cwd = js ''/workspaces/m365-test'',
      process_env = Map.empty,
      effects = []\<rparr>"

definition refusing_world :: "jstring \<Rightarrow> world" where
  "refusing_world content = (example_world content)\<lparr>refuses_copy := (\<lambda>p. True)\<rparr>"

text \<open>The copies asked of the file system among some effects, source and destination.\<close>

fun copy_of :: "effect \<Rightarrow> (jstring \<times> jstring) list" where
  "copy_of (CopyFile src dst) = [(src, dst)]"
| "copy_of (Print l) = []"
| "copy_of (EchoStdout d) = []"
| "copy_of (EchoStderr d) = []"
| "copy_of (Exec command cwd) = []"

definition copies :: "effect list \<Rightarrow> (jstring \<times> jstring) list" where
  "copies es = concat (map copy_of es)"

text \<open>The sample log of the specification, and a time of \<^verbatim>\<open>toISOString\<close>.\<close>

definition example_log :: jstring where
  "example_log =
     js (''Listening on http://localhost:3978'' @ [CHR 0x0A] @
         ''Visit https://login.microsoftonline.com/common/oauth2/v2.0/authorize?client_id=abc to continue'')"

definition example_time :: jstring where
  "example_time = js ''2026-11-02T14:07:00.123Z''"

section \<open>Properties of the matcher\<close>

lemma match_here_length: "match_here ic ns s = Some segs \<Longrightarrow> length segs = length ns"
proof (induction ic ns s arbitrary: segs rule: match_here.induct)
  case (1 ic s)
  then show ?case by simp
next
  case (2 ic a g r)
  then show ?case by simp
next
  case (3 ic a g r c s)
  then show ?case by (auto split: if_splits)
next
  case (4 ic a g r)
  then show ?case by simp
next
  case (5 ic a g r c s)
  then show ?case by (auto split: if_splits) (case_tac z; simp)
next
  case (6 ic a g r)
  then show ?case by auto
next
  case (7 ic a g r c s)
  then show ?case by (auto split: if_splits option.splits) (case_tac x2; simp)+
next
  case (8 ic a g r)
  then show ?case by auto
next
  case (9 ic a g r c s)
  then show ?case by (auto split: if_splits option.splits) (case_tac z; simp)+
qed

lemma concat_grow: "segs \<noteq> [] \<Longrightarrow> concat (grow c segs) = c # concat segs"
  by (cases segs) simp_all

lemma search_first_some: "search ic ns s = first_some (match_here ic ns) (tails s)"
  by (induction s) (simp_all split: option.splits)

lemma first_some_map_option:
  "first_some (\<lambda>x. map_option f (g x)) xs = map_option f (first_some g xs)"
  by (induction xs) (simp_all split: option.splits)

lemma first_some_cong: "(\<And>x. f x = g x) \<Longrightarrow> first_some f xs = first_some g xs"
  by (induction xs) (simp_all split: option.splits)

lemma begins_with_Nil [simp]: "begins_with ic [] t"
  by (simp add: begins_with_def)

lemma begins_with_Cons_Nil [simp]: "\<not> begins_with ic (x # w) []"
  by (simp add: begins_with_def)

lemma begins_with_Cons_Cons:
  "begins_with ic (x # w) (c # t) = (accepts ic (Lit x) c \<and> begins_with ic w t)"
  by (simp add: begins_with_def)

lemma lits_Nil [simp]: "lits [] = []"
  by (simp add: lits_def)

lemma lits_Cons: "lits (ch # w) = Node (Lit (of_char ch)) Once False # lits w"
  by (simp add: lits_def)

lemma js_Cons: "js (ch # w) = of_char ch # js w"
  by (simp add: js_def)

lemma js_Nil [simp]: "js [] = []"
  by (simp add: js_def)

lemma length_js [simp]: "length (js w) = length w"
  by (simp add: js_def)

lemma match_here_lits:
  "match_here ic (lits w @ r) s =
     (if begins_with ic (js w) s
      then map_option (\<lambda>segs. map (\<lambda>c. [c]) (take (length w) s) @ segs)
             (match_here ic r (drop (length w) s))
      else None)"
proof (induction w arbitrary: s)
  case Nil
  then show ?case by (cases "match_here ic r s") simp_all
next
  case (Cons ch w)
  show ?case
  proof (cases s)
    case Nil
    then show ?thesis by (simp add: lits_Cons js_Cons)
  next
    case (Cons c t)
    then show ?thesis
      by (simp add: lits_Cons js_Cons begins_with_Cons_Cons Cons.IH option.map_comp comp_def)
  qed
qed

lemma match_here_Star:
  "match_here ic [Node a Star g] s = Some [takeWhile (accepts ic a) s]"
  by (induction s) simp_all

lemma match_here_Plus:
  "match_here ic [Node a Plus g] s =
     (if takeWhile (accepts ic a) s = [] then None else Some [takeWhile (accepts ic a) s])"
  by (cases s) (simp_all add: match_here_Star)


lemma begins_with_take:
  "begins_with False w t \<Longrightarrow> take (length w) t = w"
proof (induction w arbitrary: t)
  case Nil
  then show ?case by simp
next
  case (Cons x w)
  then show ?case by (cases t) (simp_all add: begins_with_Cons_Cons)
qed

lemma concat_singles [simp]: "concat (map (\<lambda>c. [c]) xs) = xs"
  by (induction xs) simp_all

lemma match_lits_Plus:
  "map_option concat (match_here False (lits w @ [Node a Plus g]) t) =
     (if begins_with False (js w) t \<and> takeWhile (accepts False a) (drop (length w) t) \<noteq> []
      then Some (js w @ takeWhile (accepts False a) (drop (length w) t))
      else None)"
  using begins_with_take [of "js w" t] by (simp add: match_here_lits match_here_Plus)

lemma accepts_NotSpace: "accepts ic NotSpace = (\<lambda>c. \<not> is_space c)"
  by (rule ext) simp

lemma accepts_Digit: "accepts ic Digit = is_digit"
  by (rule ext) simp

lemma accepts_Dot: "accepts ic Dot = (\<lambda>c. \<not> is_line_terminator c)"
  by (rule ext) simp

lemma host_url_at_match:
  "map_option concat (match_here False (nodes urlPattern) t) = host_url_at t"
proof -
  define w where "w = ''https://login.microsoftonline.com/''"
  have 1: "nodes urlPattern = lits w @ [Node NotSpace Plus False]"
    by (simp add: urlPattern_def w_def)
  have 2: "login_host = js w"
    by (simp add: login_host_def w_def)
  show ?thesis
    unfolding 1 2 host_url_at_def up_to_space_def
    by (simp add: match_lits_Plus accepts_NotSpace)
qed


lemma contains_Nil: "contains w [] = (w = [])"
  by (cases w) (simp_all add: contains_def)

lemma contains_Cons:
  "contains w (c # t) = (begins_with False w (c # t) \<or> contains w t)"
  by (simp add: contains_def)

lemma begins_with_up_to_space:
  "list_all (\<lambda>c. \<not> is_space c) w \<Longrightarrow>
     begins_with False w (up_to_space t) = begins_with False w t"
proof (induction w arbitrary: t)
  case Nil
  then show ?case by simp
next
  case (Cons x w)
  then show ?case
    by (cases t) (auto simp add: begins_with_Cons_Cons up_to_space_def)
qed

lemma up_to_space_begins_with:
  "list_all (\<lambda>c. \<not> is_space c) w \<Longrightarrow> begins_with False w t \<Longrightarrow>
     up_to_space t = w @ up_to_space (drop (length w) t)"
proof (induction w arbitrary: t)
  case Nil
  then show ?case by simp
next
  case (Cons x w)
  then show ?case
    by (cases t) (auto simp add: begins_with_Cons_Cons up_to_space_def)
qed

lemma match_lits_Star:
  "map_option concat (match_here False (lits v @ [Node a Star g]) t) =
     (if begins_with False (js v) t
      then Some (js v @ takeWhile (accepts False a) (drop (length v) t))
      else None)"
  using begins_with_take [of "js v" t] by (simp add: match_here_lits match_here_Star)

lemma match_Star_lits_Star:
  assumes v: "list_all (\<lambda>c. \<not> is_space c) (js v)" "v \<noteq> []"
  shows "map_option concat
           (match_here False (Node NotSpace Star g # lits v @ [Node NotSpace Star g']) s) =
         (if contains (js v) (up_to_space s) then Some (up_to_space s) else None)"
proof (induction s)
  case Nil
  from v(2) show ?case
    by (cases v)
      (simp_all add: up_to_space_def contains_Nil option.map_comp comp_def match_lits_Star
        js_Cons)
next
  case (Cons c s)
  let ?r = "lits v @ [Node NotSpace Star g']"
  have rest: "map_option concat (map_option (Cons []) (match_here False ?r (c # s))) =
      (if begins_with False (js v) (c # s)
       then Some (js v @ up_to_space (drop (length v) (c # s))) else None)"
    by (simp add: option.map_comp comp_def match_lits_Star [unfolded comp_def] accepts_NotSpace
        up_to_space_def)
  show ?case
  proof (cases "is_space c")
    case True
    from v obtain x w where w: "js v = x # w" "\<not> is_space x"
      by (cases v) (auto simp add: js_Cons)
    with True have "\<not> begins_with False (js v) (c # s)"
      by (auto simp add: begins_with_Cons_Cons)
    with True w rest show ?thesis
      by (simp add: up_to_space_def contains_Nil)
  next
    case False
    then have up: "up_to_space (c # s) = c # up_to_space s"
      by (simp add: up_to_space_def)
    show ?thesis
    proof (cases "match_here False (Node NotSpace Star g # ?r) s")
      case None
      with Cons.IH have no: "\<not> contains (js v) (up_to_space s)"
        by (simp split: if_splits)
      have "begins_with False (js v) (c # up_to_space s) = begins_with False (js v) (c # s)"
        using begins_with_up_to_space [OF v(1), of "c # s"] up by simp
      moreover have "begins_with False (js v) (c # s) \<Longrightarrow>
          c # up_to_space s = js v @ up_to_space (drop (length v) (c # s))"
        using up_to_space_begins_with [OF v(1), of "c # s"] up by simp
      ultimately show ?thesis
        using False None no rest by (auto simp add: up contains_Cons)
    next
      case (Some segs)
      with Cons.IH have yes: "contains (js v) (up_to_space s)" "concat segs = up_to_space s"
        by (simp_all split: if_splits)
      from Some have "segs \<noteq> []"
        by (auto dest: match_here_length)
      with False Some yes show ?thesis
        by (simp add: up contains_Cons concat_grow)
    qed
  qed
qed


lemma contains_login_https:
  "contains (js ''login'') (js ''https://'' @ u) = contains (js ''login'') u"
  by (simp add: js_def contains_Cons begins_with_Cons_Cons)

lemma login_url_at_match:
  "map_option concat (match_here False (nodes altPattern) t) = login_url_at t"
proof -
  define h where "h = ''https://''"
  define l where "l = ''login''"
  let ?r = "Node NotSpace Star False # lits l @ [Node NotSpace Star False]"
  have 1: "nodes altPattern = lits h @ ?r"
    by (simp add: altPattern_def h_def l_def)
  have l: "list_all (\<lambda>c. \<not> is_space c) (js l)" "l \<noteq> []"
    by (simp_all add: l_def js_def is_space_def)
  have 8: "length h = 8"
    by (simp add: h_def)
  have "map_option concat (match_here False (lits h @ ?r) t) =
      (if begins_with False (js h) t
       then map_option ((@) (js h)) (map_option concat (match_here False ?r (drop 8 t)))
       else None)"
    using begins_with_take [of "js h" t] by (simp add: match_here_lits option.map_comp comp_def 8)
  then show ?thesis
    unfolding 1 match_Star_lits_Star [OF l] login_url_at_def
    by (simp add: h_def [symmetric] l_def [symmetric] contains_login_https [unfolded h_def [symmetric] l_def [symmetric]])
qed

lemma whole_js_match:
  "map_option whole (js_match re s) =
     first_some (\<lambda>t. map_option concat (match_here (ignoreCase re) (nodes re) t)) (tails s)"
  by (simp add: js_match_def search_first_some first_some_map_option split: option.splits)

lemma url_match_first:
  "map_option whole (js_match urlPattern s) = first_some host_url_at (tails s)"
proof -
  have "ignoreCase urlPattern = False"
    by (simp add: urlPattern_def)
  then show ?thesis
    by (simp only: whole_js_match host_url_at_match)
qed

lemma alt_match_first:
  "map_option whole (js_match altPattern s) = first_some login_url_at (tails s)"
proof -
  have "ignoreCase altPattern = False"
    by (simp add: altPattern_def)
  then show ?thesis
    by (simp only: whole_js_match login_url_at_match)
qed

lemma no_url_in_empty_text:
  "first_some host_url_at (tails []) = None" "first_some login_url_at (tails []) = None"
  by (simp_all add: host_url_at_def login_url_at_def login_host_def js_def begins_with_def)

lemma group_js_match:
  "(case js_match re s of None \<Rightarrow> None | Some m \<Rightarrow> group1 m) =
     Option.bind (first_some (match_here (ignoreCase re) (nodes re)) (tails s))
       (capture_group (nodes re))"
  by (simp add: js_match_def search_first_some split: option.splits)

lemma bind_first_some:
  "(\<And>x y. f x = Some y \<Longrightarrow> g y \<noteq> None) \<Longrightarrow>
     Option.bind (first_some f xs) g = first_some (\<lambda>x. Option.bind (f x) g) xs"
proof (induction xs)
  case Nil
  then show ?case by simp
next
  case (Cons x xs)
  then show ?case by (cases "f x") (fastforce split: option.splits)+
qed

lemma begins_with_length: "begins_with ic w t \<Longrightarrow> length (take (length w) t) = length w"
  by (auto simp add: begins_with_def dest: list_all2_lengthD)

lemma capture_group_lits:
  "length xs = length w \<Longrightarrow> capture_group (lits w @ ns) (xs @ segs) = capture_group ns segs"
proof (induction w arbitrary: xs)
  case Nil
  then show ?case by simp
next
  case (Cons ch w)
  then obtain y ys where "xs = y # ys" "length ys = length w"
    by (cases xs) auto
  with Cons.IH [of ys] show ?case
    by (simp add: lits_Cons capture_group_def)
qed

lemma capture_group_last [simp]:
  "capture_group [Node a q True] [seg] = Some seg"
  "capture_group [Node b p False, Node a q True] [seg', seg] = Some seg"
  by (simp_all add: capture_group_def)

lemma digits_after_match:
  "Option.bind (match_here ic (lits w @ [Node Digit Plus True]) t)
     (capture_group (lits w @ [Node Digit Plus True])) = digits_after ic (js w) t"
  using begins_with_length [of ic "js w" t]
  by (simp add: match_here_lits match_here_Plus digits_after_def capture_group_lits accepts_Digit)

lemma match_lazy_digits:
  "match_here ic [Node Dot LazyStar g, Node Digit Plus g'] s =
     (if takeWhile is_digit
           (drop (length (takeWhile (\<lambda>c. \<not> is_digit c \<and> \<not> is_line_terminator c) s)) s) = []
      then None
      else Some [takeWhile (\<lambda>c. \<not> is_digit c \<and> \<not> is_line_terminator c) s,
                 takeWhile is_digit
                   (drop (length (takeWhile (\<lambda>c. \<not> is_digit c \<and> \<not> is_line_terminator c) s)) s)])"
proof (induction s)
  case Nil
  then show ?case by simp
next
  case (Cons c s)
  have *: "match_here ic [Node Digit Plus g'] (c # s) =
      (if is_digit c then Some [takeWhile is_digit (c # s)] else None)"
    using match_here_Plus [of ic Digit g' "c # s"]
    by (simp add: accepts_Digit del: match_here.simps)
  show ?case
    by (simp add: * Cons.IH del: match_here.simps(5))
qed

lemma digit_not_line_terminator: "is_digit c \<Longrightarrow> \<not> is_line_terminator c"
  by (auto simp add: is_digit_def is_line_terminator_def)

lemma server_digits:
  "takeWhile is_digit
     (drop (length (takeWhile (\<lambda>c. \<not> is_digit c \<and> \<not> is_line_terminator c) s)) s) =
   takeWhile is_digit (dropWhile (\<lambda>c. \<not> is_digit c)
     (takeWhile (\<lambda>c. \<not> is_line_terminator c) s))"
proof (induction s)
  case Nil
  then show ?case by simp
next
  case (Cons c s)
  have "takeWhile is_digit (takeWhile (\<lambda>c. \<not> is_line_terminator c) s) = takeWhile is_digit s"
    by (induction s) (auto simp add: digit_not_line_terminator)
  with Cons show ?case
    by (auto simp add: digit_not_line_terminator)
qed


lemma digits_after_server_match:
  "Option.bind (match_here True (nodes serverPattern) t) (capture_group (nodes serverPattern)) =
     digits_after_server t"
proof -
  define w where "w = ''server''"
  have 1: "nodes serverPattern = lits w @ [Node Dot LazyStar False, Node Digit Plus True]"
    by (simp add: serverPattern_def w_def)
  have 6: "length w = 6"
    by (simp add: w_def)
  show ?thesis
    unfolding 1 digits_after_server_def w_def [symmetric]
    using begins_with_length [of True "js w" t]
    by (simp add: match_here_lits match_lazy_digits capture_group_lits server_digits 6
        del: drop_drop)
qed

lemma first_someD: "first_some f xs = Some y \<Longrightarrow> \<exists>x. f x = Some y"
  by (induction xs) (auto split: option.splits)

lemma takeWhile_digits: "list_all is_digit (takeWhile is_digit xs)"
  by (induction xs) simp_all

lemma digits_after_digits:
  "digits_after ic w t = Some ds \<Longrightarrow> ds \<noteq> [] \<and> list_all is_digit ds"
  by (auto simp add: digits_after_def takeWhile_digits split: if_splits)

lemma digits_after_server_digits:
  "digits_after_server t = Some ds \<Longrightarrow> ds \<noteq> [] \<and> list_all is_digit ds"
  by (auto simp add: digits_after_server_def takeWhile_digits split: if_splits)

lemma digit_value_digit: "is_digit c \<Longrightarrow> digit_value c = c - 48"
  by (simp add: is_digit_def digit_value_def)

lemma foldl_digits:
  "list_all is_digit ds \<Longrightarrow>
     foldl (\<lambda>n c. n * 10 + digit_value c) m ds = foldl (\<lambda>n c. 10 * n + (c - 48)) m ds"
  by (induction ds arbitrary: m) (simp_all add: digit_value_digit mult.commute)

lemma takeWhile_all: "list_all P xs \<Longrightarrow> takeWhile P xs = xs"
  by (induction xs) simp_all

lemma parseInt_digits:
  assumes "ds \<noteq> []" "list_all is_digit ds"
  shows "parseInt ds = Some (decimal ds)"
proof -
  from assms obtain c r where ds: "ds = c # r" "is_digit c" "list_all is_digit r"
    by (cases ds) auto
  then have c: "\<not> is_space c" "c \<noteq> 45" "c \<noteq> 43"
    by (auto simp add: is_digit_def is_space_def)
  have hex: "take 2 ds \<noteq> js ''0x''" "take 2 ds \<noteq> js ''0X''"
    using ds by (cases r; auto simp add: js_def is_digit_def)+
  have z: "takeWhile (\<lambda>c. digit_value c < 10) ds = ds"
    using assms(2) by (intro takeWhile_all) (auto simp add: list_all_iff digit_value_def is_digit_def)
  have d: "dropWhile is_space ds = ds"
    using ds c by simp
  have h: "hd ds \<noteq> 45" "hd ds \<noteq> 43"
    using ds c by simp_all
  show ?thesis
    using assms(1)
    by (simp add: parseInt_def Let_def d hex z h decimal_def foldl_digits [OF assms(2)])
qed

lemma for_patterns_step:
  assumes "(case js_match p s of None \<Rightarrow> None | Some m \<Rightarrow> group1 m) = cap"
    and "\<And>ds. cap = Some ds \<Longrightarrow> ds \<noteq> [] \<and> list_all is_digit ds"
  shows "for_patterns (p # rest) s =
    (case cap of
       None \<Rightarrow> for_patterns rest s
     | Some ds \<Rightarrow> if in_range (decimal ds) then decimal ds else for_patterns rest s)"
proof (cases cap)
  case None
  with assms(1) show ?thesis
    by (auto split: option.splits)
next
  case (Some ds)
  with assms(2) have "ds \<noteq> []" "parseInt ds = Some (decimal ds)"
    by (simp_all add: parseInt_digits)
  with Some assms(1) show ?thesis
    by (auto simp add: in_range_def split: option.splits)
qed


lemma capture_group_defined:
  "list_ex is_group ns \<Longrightarrow> length segs = length ns \<Longrightarrow> capture_group ns segs \<noteq> None"
proof (induction ns arbitrary: segs)
  case Nil
  then show ?case by simp
next
  case (Cons n ns)
  then obtain y ys where segs: "segs = y # ys" "length ys = length ns"
    by (cases segs) auto
  show ?case
  proof (cases "is_group n")
    case True
    with segs show ?thesis by (simp add: capture_group_def)
  next
    case False
    with Cons.prems(1) have "list_ex is_group ns" by simp
    from Cons.IH [OF this segs(2)] False segs show ?thesis
      by (simp add: capture_group_def)
  qed
qed

lemma group_first_some:
  assumes "list_ex is_group (nodes re)"
  shows "(case js_match re s of None \<Rightarrow> None | Some m \<Rightarrow> group1 m) =
    first_some (\<lambda>t. Option.bind (match_here (ignoreCase re) (nodes re) t)
                  (capture_group (nodes re))) (tails s)"
  unfolding group_js_match
proof (rule bind_first_some)
  fix t segs
  assume "match_here (ignoreCase re) (nodes re) t = Some segs"
  then have "length segs = length (nodes re)"
    by (rule match_here_length)
  with assms show "capture_group (nodes re) segs \<noteq> None"
    by (rule capture_group_defined)
qed

lemma lits_no_group [simp]: "list_ex is_group (lits w @ ns) = list_ex is_group ns"
  by (induction w) (simp_all add: lits_Cons)

lemma capture_localhost:
  "(case js_match localhostPattern s of None \<Rightarrow> None | Some m \<Rightarrow> group1 m) =
     first_some (digits_after False (js ''localhost:'')) (tails s)"
proof -
  have "list_ex is_group (nodes localhostPattern)"
    unfolding localhostPattern_def by (simp del: list_ex_append)
  from group_first_some [OF this] show ?thesis
    by (simp add: localhostPattern_def digits_after_match)
qed

lemma capture_loopback:
  "(case js_match loopbackPattern s of None \<Rightarrow> None | Some m \<Rightarrow> group1 m) =
     first_some (digits_after False (js ''127.0.0.1:'')) (tails s)"
proof -
  have "list_ex is_group (nodes loopbackPattern)"
    unfolding loopbackPattern_def by (simp del: list_ex_append)
  from group_first_some [OF this] show ?thesis
    by (simp add: loopbackPattern_def digits_after_match)
qed

lemma capture_port:
  "(case js_match portPattern s of None \<Rightarrow> None | Some m \<Rightarrow> group1 m) =
     first_some (digits_after True (js ''port '')) (tails s)"
proof -
  have "list_ex is_group (nodes portPattern)"
    unfolding portPattern_def by (simp del: list_ex_append)
  from group_first_some [OF this] show ?thesis
    by (simp add: portPattern_def digits_after_match)
qed

lemma capture_server:
  "(case js_match serverPattern s of None \<Rightarrow> None | Some m \<Rightarrow> group1 m) =
     first_some digits_after_server (tails s)"
proof -
  have g: "list_ex is_group (nodes serverPattern)"
    unfolding serverPattern_def by (simp del: list_ex_append)
  have ic: "ignoreCase serverPattern = True"
    by (simp add: serverPattern_def)
  from group_first_some [OF g] show ?thesis
    by (simp only: ic digits_after_server_match)
qed

lemma first_digits_after:
  "first_some (digits_after ic w) ts = Some ds \<Longrightarrow> ds \<noteq> [] \<and> list_all is_digit ds"
  by (auto dest!: first_someD digits_after_digits)

lemma first_digits_after_server:
  "first_some digits_after_server ts = Some ds \<Longrightarrow> ds \<noteq> [] \<and> list_all is_digit ds"
  by (auto dest!: first_someD digits_after_server_digits)

lemma for_patterns_spec: "for_patterns patterns s = spec_extractPort (Some s)"
  unfolding patterns_def spec_extractPort_def captures_def
  by (simp add: for_patterns_step [OF capture_localhost first_digits_after]
      for_patterns_step [OF capture_loopback first_digits_after]
      for_patterns_step [OF capture_port first_digits_after]
      for_patterns_step [OF capture_server first_digits_after_server]
      del: for_patterns.simps(2) split: option.splits)

lemma for_patterns_in_range: "in_range (for_patterns ps s)"
  by (induction ps) (auto simp add: in_range_def split: option.splits)

section \<open>Properties of the log scanner\<close>

text \<open>
  C7: for the empty text and for null, \<^verbatim>\<open>extractAuthPort\<close> returns 3978 and
  \<^verbatim>\<open>extractOAuthUrl\<close> returns null.
\<close>

theorem empty_or_null_input:
  "extractAuthPort None = 3978 \<and> extractAuthPort (Some []) = 3978 \<and>
   extractOAuthUrl None = None \<and> extractOAuthUrl (Some []) = None"
  by (simp add: extractAuthPort_def extractOAuthUrl_def)

text \<open>
  C3: on the sample log of the specification, two lines separated by a line feed, the
  scanner finds the URL up to the blank after \<open>client_id=abc\<close> and the port 3978.
\<close>

theorem sample_log:
  "extractOAuthUrl
     (Some (js (''Listening on http://localhost:3978'' @ [CHR 0x0A] @
        ''Visit https://login.microsoftonline.com/common/oauth2/v2.0/authorize?client_id=abc to continue''))) =
     Some (js ''https://login.microsoftonline.com/common/oauth2/v2.0/authorize?client_id=abc'') \<and>
   extractAuthPort
     (Some (js (''Listening on http://localhost:3978'' @ [CHR 0x0A] @
        ''Visit https://login.microsoftonline.com/common/oauth2/v2.0/authorize?client_id=abc to continue''))) =
     3978"
  by (simp add: extractAuthPort_def extractOAuthUrl_def js_def patterns_def localhostPattern_def
      urlPattern_def js_match_def lits_def capture_group_def is_space_def is_digit_def
      parseInt_def digit_value_def Let_def)

text \<open>
  C2, amended: \<^verbatim>\<open>extractOAuthUrl\<close> returns the first URL of the login host in the
  text, that is the host prefix with at least one character other than white space after
  it, up to the next white space or the end of the text; when the text has none, the
  first HTTPS URL that holds the word login, from \<open>https://\<close> up to the next white space
  or the end of the text; when it has neither, null. It is a total function: no input
  makes it fail.
\<close>

theorem extractOAuthUrl_first_url: "extractOAuthUrl input = spec_extractLoginUrl input"
proof (cases input)
  case None
  then show ?thesis by (simp add: extractOAuthUrl_def spec_extractLoginUrl_def)
next
  case (Some s)
  show ?thesis
  proof (cases "s = []")
    case True
    with Some no_url_in_empty_text show ?thesis
      by (simp add: extractOAuthUrl_def spec_extractLoginUrl_def)
  next
    case False
    with Some url_match_first [of s] alt_match_first [of s] show ?thesis
      by (auto simp add: extractOAuthUrl_def spec_extractLoginUrl_def split: option.splits)
  qed
qed

text \<open>
  The claim as it stands fails where the host prefix stands alone before a white space:
  the prefix with nothing after it is no match of the first pattern, and the second
  pattern finds an earlier URL. Reading the text for the prefix alone gives the bare
  prefix there; the program gives the earlier URL.
\<close>

theorem bare_host_prefix:
  "extractOAuthUrl
     (Some (js ''https://evil.example/login https://login.microsoftonline.com/ x'')) =
     Some (js ''https://evil.example/login'') \<and>
   prefix_extractLoginUrl
     (Some (js ''https://evil.example/login https://login.microsoftonline.com/ x'')) =
     Some (js ''https://login.microsoftonline.com/'')"
proof -
  have "extractOAuthUrl
      (Some (js ''https://evil.example/login https://login.microsoftonline.com/ x'')) =
      Some (js ''https://evil.example/login'')"
    by (simp add: extractOAuthUrl_def js_def urlPattern_def altPattern_def js_match_def lits_def
        is_space_def)
  moreover have "prefix_extractLoginUrl
      (Some (js ''https://evil.example/login https://login.microsoftonline.com/ x'')) =
      Some (js ''https://login.microsoftonline.com/'')"
    by (simp add: prefix_extractLoginUrl_def host_prefix_at_def login_host_def begins_with_def
        up_to_space_def js_def is_space_def)
  ultimately show ?thesis
    by simp
qed

text \<open>
  C1: \<^verbatim>\<open>extractAuthPort\<close> goes through the four patterns in the order localhost,
  127.0.0.1, port, server; each captures the digits of its first occurrence in the text;
  the first capture whose number lies strictly between 1000 and 65535 is the result, and
  the result is 3978 when there is none. The text \<open>port 99999\<close> gives 3978.
\<close>

theorem extractAuthPort_first_in_range:
  "patterns = [localhostPattern, loopbackPattern, portPattern, serverPattern] \<and>
   extractAuthPort input = spec_extractPort input \<and>
   extractAuthPort (Some (js ''port 99999'')) = 3978"
proof -
  have "extractAuthPort input = spec_extractPort input"
  proof (cases input)
    case None
    then show ?thesis by (simp add: extractAuthPort_def spec_extractPort_def)
  next
    case (Some s)
    have "for_patterns patterns [] = 3978"
      by (simp add: for_patterns_spec spec_extractPort_def captures_def digits_after_def
          digits_after_server_def js_def begins_with_def)
    with Some show ?thesis
      by (cases "s = []") (simp_all add: extractAuthPort_def for_patterns_spec)
  qed
  moreover have "extractAuthPort (Some (js ''port 99999'')) = 3978"
    by (simp add: extractAuthPort_def js_def patterns_def localhostPattern_def loopbackPattern_def
        portPattern_def serverPattern_def js_match_def lits_def capture_group_def is_space_def
        is_digit_def ascii_upper_def parseInt_def digit_value_def Let_def)
  ultimately show ?thesis
    by (simp add: patterns_def)
qed

text \<open>
  C9: whatever the input, null included, the port that \<^verbatim>\<open>extractAuthPort\<close> returns
  lies strictly between 1000 and 65535.
\<close>

theorem extractAuthPort_bounds: "1000 < extractAuthPort input \<and> extractAuthPort input < 65535"
  using for_patterns_in_range [of patterns]
  by (simp add: extractAuthPort_def in_range_def split: option.splits)

text \<open>
  C10: only the first occurrence of \<open>localhost:\<close> with digits counts. When its number is
  out of range, the result is what the three remaining patterns give (3978 when none
  gives a port), whatever occurrences of \<open>localhost:\<close> with digits come later.
\<close>

theorem first_localhost_only:
  assumes "first_some (digits_after False (js ''localhost:'')) (tails t) = Some ds"
    and "\<not> in_range (decimal ds)"
  shows "extractAuthPort (Some t) = for_patterns [loopbackPattern, portPattern, serverPattern] t"
proof -
  from assms(1) have "t \<noteq> []"
    by (auto simp add: digits_after_def js_def begins_with_def)
  with assms show ?thesis
    by (simp add: extractAuthPort_def patterns_def
        for_patterns_step [OF capture_localhost first_digits_after] del: for_patterns.simps(2))
qed

theorem first_localhost_only_witness:
  "first_some (digits_after False (js ''localhost:''))
     (tails (js ''localhost:99999 then localhost:4321'')) = Some (js ''99999'') \<and>
   \<not> in_range (decimal (js ''99999'')) \<and>
   extractAuthPort (Some (js ''localhost:99999 then localhost:4321'')) = 3978"
proof -
  have 1: "first_some (digits_after False (js ''localhost:''))
      (tails (js ''localhost:99999 then localhost:4321'')) = Some (js ''99999'')"
    by (simp add: digits_after_def js_def begins_with_def is_digit_def)
  have 2: "\<not> in_range (decimal (js ''99999''))"
    by (simp add: in_range_def decimal_def js_def)
  have 3: "for_patterns [loopbackPattern, portPattern, serverPattern]
      (js ''localhost:99999 then localhost:4321'') = 3978"
    by (simp add: js_def loopbackPattern_def portPattern_def serverPattern_def js_match_def
        lits_def capture_group_def is_digit_def ascii_upper_def)
  from first_localhost_only [OF 1 2] 1 2 3 show ?thesis
    by simp
qed

section \<open>Properties of command execution\<close>

lemma settled_stays:
  "settled st \<noteq> Pending \<Longrightarrow> settled (foldl handle_event st evs) = settled st"
proof (induction evs arbitrary: st)
  case Nil
  then show ?case by simp
next
  case (Cons e evs)
  then show ?case by (cases e) (simp_all add: settle_def)
qed

lemma data_accumulates:
  "list_all is_data evs \<Longrightarrow>
     settled (foldl handle_event st evs) = settled st \<and>
     stdout_acc (foldl handle_event st evs) = stdout_acc st @ concat (map stdout_chunk evs) \<and>
     stderr_acc (foldl handle_event st evs) = stderr_acc st @ concat (map stderr_chunk evs)"
proof (induction evs arbitrary: st)
  case Nil
  then show ?case by simp
next
  case (Cons e evs)
  then show ?case by (cases e) simp_all
qed

lemma streaming_at_close:
  assumes "list_all is_data evs"
  shows "settled (executeCommandStreaming pcwd command cwd evs) = Pending"
    and "settled (executeCommandStreaming pcwd command cwd (evs @ Close c # later)) =
      Resolved \<lparr>success = (c = Some 0),
                stdout = trim (concat (map stdout_chunk evs)),
                stderr = trim (concat (map stderr_chunk evs)),
                exitCode = (case c of None \<Rightarrow> Null | Some n \<Rightarrow> Number n)\<rparr>"
  using data_accumulates [OF assms]
  by (simp_all add: executeCommandStreaming_def Let_def settled_stays settle_def)

lemma streaming_at_error:
  assumes "list_all is_data evs"
  shows "settled (executeCommandStreaming pcwd command cwd (evs @ Error msg # later)) =
      Rejected \<lparr>success = False, stdout = concat (map stdout_chunk evs), stderr = msg,
                exitCode = Number 1\<rparr>"
  using data_accumulates [OF assms]
  by (simp add: executeCommandStreaming_def Let_def settled_stays settle_def)

lemma takeWhile_is_data: "list_all is_data (takeWhile is_data evs)"
  by (induction evs) simp_all

text \<open>
  C8: the promise of \<^verbatim>\<open>executeCommandStreaming\<close> is resolved exactly when the child
  has closed, that is when a close event has come after nothing but output. The result
  then carries the exit status, the trimmed standard output and standard error
  accumulated before the close, and success exactly when the status is 0; no later event
  changes it. A child that could not be spawned sends an error, which is no exit, and
  the promise is then never resolved.
\<close>

theorem streaming_resolves_at_close:
  "(settled (executeCommandStreaming pcwd command cwd evs) = Resolved r) =
     (\<exists>before c later.
        evs = before @ Close c # later \<and> list_all is_data before \<and>
        r = \<lparr>success = (c = Some 0),
             stdout = trim (concat (map stdout_chunk before)),
             stderr = trim (concat (map stderr_chunk before)),
             exitCode = (case c of None \<Rightarrow> Null | Some n \<Rightarrow> Number n)\<rparr>)"
proof
  assume resolved: "settled (executeCommandStreaming pcwd command cwd evs) = Resolved r"
  let ?before = "takeWhile is_data evs"
  have data: "list_all is_data ?before"
    by (rule takeWhile_is_data)
  have split: "evs = ?before @ dropWhile is_data evs"
    by simp
  show "\<exists>before c later.
        evs = before @ Close c # later \<and> list_all is_data before \<and>
        r = \<lparr>success = (c = Some 0),
             stdout = trim (concat (map stdout_chunk before)),
             stderr = trim (concat (map stderr_chunk before)),
             exitCode = (case c of None \<Rightarrow> Null | Some n \<Rightarrow> Number n)\<rparr>"
  proof (cases "dropWhile is_data evs")
    case Nil
    with split have "evs = ?before" by simp
    with streaming_at_close(1) [OF data, of pcwd command cwd] resolved show ?thesis
      by simp
  next
    case (Cons e later)
    then have "\<not> is_data e"
      by (metis dropWhile_eq_Cons_conv)
    from split Cons have evs: "evs = ?before @ e # later"
      by simp
    show ?thesis
    proof (cases e)
      case (StdoutData d)
      with \<open>\<not> is_data e\<close> show ?thesis by simp
    next
      case (StderrData d)
      with \<open>\<not> is_data e\<close> show ?thesis by simp
    next
      case (Close c)
      with evs have e: "evs = ?before @ Close c # later"
        by simp
      from streaming_at_close(2) [OF data, of pcwd command cwd c later] resolved
      have "r = \<lparr>success = (c = Some 0),
             stdout = trim (concat (map stdout_chunk ?before)),
             stderr = trim (concat (map stderr_chunk ?before)),
             exitCode = (case c of None \<Rightarrow> Null | Some n \<Rightarrow> Number n)\<rparr>"
        unfolding e [symmetric] by simp
      with e data show ?thesis
        by blast
    next
      case (Error msg)
      with evs have e: "evs = ?before @ Error msg # later"
        by simp
      from streaming_at_error [OF data, of pcwd command cwd msg later] resolved
      show ?thesis
        unfolding e [symmetric] by simp
    qed
  qed
next
  assume "\<exists>before c later.
        evs = before @ Close c # later \<and> list_all is_data before \<and>
        r = \<lparr>success = (c = Some 0),
             stdout = trim (concat (map stdout_chunk before)),
             stderr = trim (concat (map stderr_chunk before)),
             exitCode = (case c of None \<Rightarrow> Null | Some n \<Rightarrow> Number n)\<rparr>"
  then show "settled (executeCommandStreaming pcwd command cwd evs) = Resolved r"
    by (auto simp add: streaming_at_close(2))
qed

theorem streaming_resolves_at_close_example:
  "settled (executeCommandStreaming (js ''/'') (js ''npm install'') None
     [StdoutData (js ''added 1 package ''), StderrData (js '' npm warn''), Close (Some 1)]) =
     Resolved \<lparr>success = False, stdout = js ''added 1 package'', stderr = js ''npm warn'',
               exitCode = Number 1\<rparr> \<and>
   settled (executeCommandStreaming (js ''/'') (js ''npm install'') None
     [StdoutData (js ''added 1 package ''), StderrData (js '' npm warn'')]) \<noteq>
     Resolved \<lparr>success = False, stdout = js ''added 1 package'', stderr = js ''npm warn'',
               exitCode = Number 1\<rparr>"
proof -
  let ?r = "\<lparr>success = False, stdout = js ''added 1 package'', stderr = js ''npm warn'',
               exitCode = Number 1\<rparr>"
  let ?data = "[StdoutData (js ''added 1 package ''), StderrData (js '' npm warn'')]"
  have "\<exists>before c later.
        ?data @ [Close (Some 1)] = before @ Close c # later \<and> list_all is_data before \<and>
        ?r = \<lparr>success = (c = Some 0),
             stdout = trim (concat (map stdout_chunk before)),
             stderr = trim (concat (map stderr_chunk before)),
             exitCode = (case c of None \<Rightarrow> Null | Some n \<Rightarrow> Number n)\<rparr>"
    by (rule exI [of _ ?data], rule exI [of _ "Some 1"], rule exI [of _ "[]"])
      (simp add: trim_def js_def is_space_def)
  then have 1: "settled (executeCommandStreaming (js ''/'') (js ''npm install'') None
      (?data @ [Close (Some 1)])) = Resolved ?r"
    by (simp only: streaming_resolves_at_close)
  have "\<not> (\<exists>before c later.
        ?data = before @ Close c # later \<and> list_all is_data before \<and>
        ?r = \<lparr>success = (c = Some 0),
             stdout = trim (concat (map stdout_chunk before)),
             stderr = trim (concat (map stderr_chunk before)),
             exitCode = (case c of None \<Rightarrow> Null | Some n \<Rightarrow> Number n)\<rparr>)"
    by (auto simp add: Cons_eq_append_conv)
  then have 2: "settled (executeCommandStreaming (js ''/'') (js ''npm install'') None ?data) \<noteq>
      Resolved ?r"
    unfolding streaming_resolves_at_close by simp
  from 1 2 show ?thesis
    by simp
qed

lemma executeCommand_resolves:
  "\<exists>r. snd (executeCommand w command cwd) = Resolved r"
  by (simp add: executeCommand_def Let_def split: exec_outcome.splits)

lemma executeCommand_failure:
  "shell w command (or_else cwd (process_cwd w)) = Thrown error \<Longrightarrow>
     snd (executeCommand w command cwd) =
       Resolved \<lparr>success = False, stdout = or_else (error_stdout error) [],
                 stderr = or_else (error_stderr error) (message error),
                 exitCode = code_or_1 (code error)\<rparr>"
  by (simp add: executeCommand_def Let_def)

text \<open>
  C5: an error of the child, as when it cannot be spawned, makes
  \<^verbatim>\<open>executeCommandStreaming\<close> reject its promise. The value of the rejection is the
  result object with \<^verbatim>\<open>success: false\<close> that \<^verbatim>\<open>executeCommand\<close> returns for a
  failure, but the caller's \<^verbatim>\<open>await\<close> throws it.
\<close>

theorem spawn_error_rejects:
  "settled (executeCommandStreaming pcwd command cwd (Error msg # later)) =
     Rejected \<lparr>success = False, stdout = [], stderr = msg, exitCode = Number 1\<rparr>"
  by (simp add: executeCommandStreaming_def Let_def settled_stays settle_def)

section \<open>Properties of port forwarding\<close>

lemmas digits_eval = digits.simps [of "numeral n" for n]

lemma decimal_snoc: "decimal (ds @ [c]) = 10 * decimal ds + int (c - 48)"
  by (simp add: decimal_def)

lemma decimal_digits: "decimal (digits n) = int n"
proof (induction n rule: digits.induct)
  case (1 n)
  show ?case
  proof (cases "n < 10")
    case True
    then show ?thesis
      by (simp add: digits.simps [of n] decimal_def)
  next
    case False
    with "1" have "decimal (digits (n div 10)) = int (n div 10)"
      by simp
    moreover have "10 * int (n div 10) + int (n mod 10) = int n"
      by presburger
    ultimately show ?thesis
      using False by (simp add: digits.simps [of n] decimal_snoc)
  qed
qed

lemma example_port_text: "number_to_string 3978 = Some (js ''3978'')"
  by (simp add: number_to_string_def show_int_def digits_eval js_def)

text \<open>
  C4, amended: for a port that is an integer of magnitude up to \<open>2^53\<close>,
  \<^verbatim>\<open>generatePortForwardingUrl\<close> returns \<open>https://<name>-<port>.app.github.dev\<close>
  when the codespace name is set to a non-empty string, whatever the domain; else
  \<open>https://<domain>-<port>.githubpreview.dev\<close> when the port-forwarding domain is set to
  a non-empty string; else \<open>http://localhost:<port>\<close>; the port is written in decimal.
  The result depends on the port and on these two variables only. With the name \<open>foo\<close>
  and the port 3978 it is \<open>https://foo-3978.app.github.dev\<close>; with no variable set it is
  \<open>http://localhost:3978\<close>.
\<close>

theorem forwarding_url_by_environment:
  assumes "\<bar>port\<bar> \<le> 2 ^ 53"
  shows "generatePortForwardingUrl env port =
     Some (case non_empty (env ''CODESPACE_NAME'') of
        Some name \<Rightarrow> js ''https://'' @ name @ js ''-'' @ show_int port @ js ''.app.github.dev''
      | None \<Rightarrow>
          (case non_empty (env ''GITHUB_CODESPACES_PORT_FORWARDING_DOMAIN'') of
             Some domain \<Rightarrow>
               js ''https://'' @ domain @ js ''-'' @ show_int port @ js ''.githubpreview.dev''
           | None \<Rightarrow> js ''http://localhost:'' @ show_int port)) \<and>
   generatePortForwardingUrl [''CODESPACE_NAME'' \<mapsto> js ''foo''] 3978 =
     Some (js ''https://foo-3978.app.github.dev'') \<and>
   generatePortForwardingUrl Map.empty 3978 = Some (js ''http://localhost:3978'')"
proof -
  from assms have n: "number_to_string port = Some (show_int port)"
    by (simp add: number_to_string_def)
  have "generatePortForwardingUrl [''CODESPACE_NAME'' \<mapsto> js ''foo''] 3978 =
      Some (js ''https://foo-3978.app.github.dev'')"
    by (simp add: generatePortForwardingUrl_def truthy_def or_else_def example_port_text js_def)
  moreover have "generatePortForwardingUrl Map.empty 3978 = Some (js ''http://localhost:3978'')"
    by (simp add: generatePortForwardingUrl_def truthy_def example_port_text js_def)
  ultimately show ?thesis
    by (simp add: generatePortForwardingUrl_def n truthy_def or_else_def non_empty_def Let_def
        split: option.splits)
qed

theorem forwarding_url_by_environment_witness:
  "\<bar>3978 :: int\<bar> \<le> 2 ^ 53 \<and>
   generatePortForwardingUrl
     [''CODESPACE_NAME'' \<mapsto> js ''foo'',
      ''GITHUB_CODESPACES_PORT_FORWARDING_DOMAIN'' \<mapsto> js ''bar''] 3978 =
     Some (js ''https://foo-3978.app.github.dev'') \<and>
   generatePortForwardingUrl [''GITHUB_CODESPACES_PORT_FORWARDING_DOMAIN'' \<mapsto> js ''bar''] 3978 =
     Some (js ''https://bar-3978.githubpreview.dev'')"
proof -
  have b: "\<bar>3978 :: int\<bar> \<le> 2 ^ 53"
    by simp
  have t: "show_int 3978 = js ''3978''"
    by (simp add: show_int_def digits_eval js_def)
  from forwarding_url_by_environment [OF b,
      of "[''CODESPACE_NAME'' \<mapsto> js ''foo'',
           ''GITHUB_CODESPACES_PORT_FORWARDING_DOMAIN'' \<mapsto> js ''bar'']"]
    forwarding_url_by_environment [OF b,
      of "[''GITHUB_CODESPACES_PORT_FORWARDING_DOMAIN'' \<mapsto> js ''bar'']"]
  show ?thesis
    by (simp add: non_empty_def t js_def)
qed

text \<open>
  The claim as it stands fails for a variable that is set to the empty string: the
  program takes it as not set.
\<close>

theorem empty_codespace_name:
  "[''CODESPACE_NAME'' \<mapsto> []] ''CODESPACE_NAME'' = Some [] \<and>
   generatePortForwardingUrl [''CODESPACE_NAME'' \<mapsto> []] 3978 \<noteq>
     Some (js ''https://'' @ [] @ js ''-3978.app.github.dev'') \<and>
   generatePortForwardingUrl [''CODESPACE_NAME'' \<mapsto> []] 3978 = Some (js ''http://localhost:3978'')"
  by (simp add: generatePortForwardingUrl_def truthy_def or_else_def example_port_text js_def)

section \<open>Properties of the driving sequence\<close>

lemma extractOAuthUrl_non_empty: "extractOAuthUrl input = Some url \<Longrightarrow> url \<noteq> []"
proof -
  assume r: "extractOAuthUrl input = Some url"
  then obtain s where s: "input = Some s"
    by (cases input) (simp_all add: extractOAuthUrl_def)
  from r s url_match_first [of s] alt_match_first [of s]
  have "first_some host_url_at (tails s) = Some url \<or> first_some login_url_at (tails s) = Some url"
    by (auto simp add: extractOAuthUrl_def split: if_splits option.splits)
  then show ?thesis
    by (auto simp add: host_url_at_def login_url_at_def login_host_def js_def
        split: if_splits dest!: first_someD)
qed

lemma replace_colon_period_map:
  "replace_colon_period s =
     map (\<lambda>c. if c = of_char CHR '':'' \<or> c = of_char CHR ''.'' then of_char CHR ''-'' else c) s"
  by (induction s) simp_all

lemma copies_append [simp]: "copies (es @ fs) = copies es @ copies fs"
  by (simp add: copies_def)

lemma catch_keeps_files:
  "files (fst (testATKExecution_step6_catch m w)) = files w"
  "copies (effects (fst (testATKExecution_step6_catch m w))) = copies (effects w)"
  by (simp_all add: testATKExecution_step6_catch_def executeCommand_def emit_def Let_def
      copies_def split: exec_outcome.splits)

text \<open>
  C6, amended: in every run in which the log is read, the name of the archival file is
  \<open>auth-\<close>, the ISO time of the run with every colon and every period replaced by a
  hyphen, and \<open>.log\<close>. When a login URL is found in the log, the sequence prints the
  log, the URL, the port and the public URL and then asks the file system for one copy,
  of the log to the archival path; when the file system does the copy, the archival path
  then holds the log's content and the sequence prints where the log was saved; when it
  refuses the copy, no file changes and the \<^verbatim>\<open>catch\<close> block of the step reports the
  failure. When no URL is found, the sequence prints a preview of the log, asks for no
  copy, and no file changes.
\<close>

theorem log_archived_when_url_found:
  fixes join isoString w
  defines "source \<equiv> authLogPath join (process_env w)"
    and "archive \<equiv> logFile join (process_env w) isoString"
  assumes "files w source = Some content"
  shows "archive =
      join (LOGS_PATH join (process_env w))
        (js ''auth-'' @
         map (\<lambda>c. if c = of_char CHR '':'' \<or> c = of_char CHR ''.'' then of_char CHR ''-'' else c)
           isoString @
         js ''.log'') \<and>
    testATKExecution_step6 join isoString w =
      (case extractOAuthUrl (Some content) of
         None \<Rightarrow>
           (emit [Print AuthLogContents, Print StartAuthLog, Print (Raw content), Print EndAuthLog,
                  Print NoOAuthUrlFound, Print (LogPreview (take 500 content))] w,
            Continues)
       | Some url \<Rightarrow>
           if refuses_copy w archive then
             testATKExecution_step6_catch (fs_message w archive)
               (emit [Print AuthLogContents, Print StartAuthLog, Print (Raw content),
                      Print EndAuthLog, Print ExtractionSuccessful, Print (OAuthUrl url),
                      Print (AuthServerPort (extractAuthPort (Some content))),
                      Print (PublicAuthUrl
                        (generatePortForwardingUrl (process_env w)
                           (extractAuthPort (Some content)))),
                      Print AuthenticationInstructions, Print (Instruction 1),
                      Print (Instruction 2), Print (Instruction 3), Print (Instruction 4),
                      CopyFile source archive] w)
           else
             (w\<lparr>files := (files w)(archive \<mapsto> content),
                effects := effects w @
                  [Print AuthLogContents, Print StartAuthLog, Print (Raw content),
                   Print EndAuthLog, Print ExtractionSuccessful, Print (OAuthUrl url),
                   Print (AuthServerPort (extractAuthPort (Some content))),
                   Print (PublicAuthUrl
                     (generatePortForwardingUrl (process_env w)
                        (extractAuthPort (Some content)))),
                   Print AuthenticationInstructions, Print (Instruction 1),
                   Print (Instruction 2), Print (Instruction 3), Print (Instruction 4),
                   CopyFile source archive, Print (LogSavedTo archive)]\<rparr>,
              Continues)) \<and>
    copies (effects (fst (testATKExecution_step6 join isoString w))) =
      copies (effects w) @
      (case extractOAuthUrl (Some content) of None \<Rightarrow> [] | Some url \<Rightarrow> [(source, archive)]) \<and>
    files (fst (testATKExecution_step6 join isoString w)) =
      (case extractOAuthUrl (Some content) of
         None \<Rightarrow> files w
       | Some url \<Rightarrow> if refuses_copy w archive then files w else (files w)(archive \<mapsto> content))"
proof -
  have name: "archive =
      join (LOGS_PATH join (process_env w))
        (js ''auth-'' @
         map (\<lambda>c. if c = of_char CHR '':'' \<or> c = of_char CHR ''.'' then of_char CHR ''-'' else c)
           isoString @
         js ''.log'')"
    by (simp add: archive_def logFile_def replace_colon_period_map)
  have read: "readFile w (authLogPath join (process_env w)) = Inr content"
    using assms(3) by (simp add: readFile_def source_def)
  show ?thesis
  proof (cases "extractOAuthUrl (Some content)")
    case None
    with read name show ?thesis
      by (simp add: testATKExecution_step6_def truthy_def Let_def emit_def copies_def)
  next
    case (Some url)
    then have "url \<noteq> []"
      by (rule extractOAuthUrl_non_empty)
    with Some have found: "truthy (extractOAuthUrl (Some content))"
      "or_else (extractOAuthUrl (Some content)) [] = url"
      by (simp_all add: truthy_def or_else_def)
    show ?thesis
    proof (cases "refuses_copy w archive")
      case True
      with read found Some assms(3) have step:
        "testATKExecution_step6 join isoString w =
          testATKExecution_step6_catch (fs_message w archive)
            (emit [Print AuthLogContents, Print StartAuthLog, Print (Raw content),
                   Print EndAuthLog, Print ExtractionSuccessful, Print (OAuthUrl url),
                   Print (AuthServerPort (extractAuthPort (Some content))),
                   Print (PublicAuthUrl
                     (generatePortForwardingUrl (process_env w)
                        (extractAuthPort (Some content)))),
                   Print AuthenticationInstructions, Print (Instruction 1),
                   Print (Instruction 2), Print (Instruction 3), Print (Instruction 4),
                   CopyFile source archive] w)"
        by (simp add: testATKExecution_step6_def Let_def emit_def copyFile_def source_def
            archive_def)
      from True Some name show ?thesis
        unfolding step by (simp add: catch_keeps_files) (simp add: emit_def copies_def)
    next
      case False
      with read found Some assms(3) name show ?thesis
        by (simp add: testATKExecution_step6_def Let_def emit_def copyFile_def source_def
            archive_def copies_def)
    qed
  qed
qed

lemma example_log_url:
  "extractOAuthUrl (Some example_log) =
     Some (js ''https://login.microsoftonline.com/common/oauth2/v2.0/authorize?client_id=abc'')"
  by (simp add: example_log_def extractOAuthUrl_def js_def urlPattern_def js_match_def lits_def
      is_space_def)

lemma example_log_port: "extractAuthPort (Some example_log) = 3978"
  by (simp add: example_log_def extractAuthPort_def js_def patterns_def localhostPattern_def
      js_match_def lits_def capture_group_def is_space_def is_digit_def parseInt_def
      digit_value_def Let_def)

lemma no_url_example: "extractOAuthUrl (Some (js ''Starting authentication'')) = None"
  by (simp add: extractOAuthUrl_def js_def urlPattern_def altPattern_def js_match_def lits_def
      is_space_def)

lemma example_paths:
  "authLogPath plain_join Map.empty = js ''/workspaces/m365-test/agents/myagent/auth.log''"
  "logFile plain_join Map.empty example_time =
     js ''/workspaces/m365-test/logs/auth-2026-11-02T14-07-00-123Z.log''"
  by (simp_all add: authLogPath_def logFile_def LOGS_PATH_def WORKSPACE_ROOT_def AGENT_PATH_def
      plain_join_def or_else_def example_time_def js_def)

lemma example_worlds:
  "process_env (example_world content) = Map.empty"
  "process_env (refusing_world content) = Map.empty"
  "effects (example_world content) = []"
  "effects (refusing_world content) = []"
  "files (example_world content) (js ''/workspaces/m365-test/agents/myagent/auth.log'') =
     Some content"
  "files (refusing_world content) (js ''/workspaces/m365-test/agents/myagent/auth.log'') =
     Some content"
  "files (example_world content)
     (js ''/workspaces/m365-test/logs/auth-2026-11-02T14-07-00-123Z.log'') = None"
  "files (refusing_world content)
     (js ''/workspaces/m365-test/logs/auth-2026-11-02T14-07-00-123Z.log'') = None"
  "refuses_copy (example_world content) p = False"
  "refuses_copy (refusing_world content) p = True"
  by (simp_all add: example_world_def refusing_world_def js_def)

theorem log_archived_when_url_found_witness:
  "files (example_world example_log) (authLogPath plain_join Map.empty) = Some example_log \<and>
   files (fst (testATKExecution_step6 plain_join example_time (example_world example_log)))
     (js ''/workspaces/m365-test/logs/auth-2026-11-02T14-07-00-123Z.log'') = Some example_log \<and>
   effects (fst (testATKExecution_step6 plain_join example_time (example_world example_log))) =
     [Print AuthLogContents, Print StartAuthLog, Print (Raw example_log), Print EndAuthLog,
      Print ExtractionSuccessful,
      Print (OAuthUrl
        (js ''https://login.microsoftonline.com/common/oauth2/v2.0/authorize?client_id=abc'')),
      Print (AuthServerPort 3978), Print (PublicAuthUrl (Some (js ''http://localhost:3978''))),
      Print AuthenticationInstructions, Print (Instruction 1), Print (Instruction 2),
      Print (Instruction 3), Print (Instruction 4),
      CopyFile (js ''/workspaces/m365-test/agents/myagent/auth.log'')
        (js ''/workspaces/m365-test/logs/auth-2026-11-02T14-07-00-123Z.log''),
      Print (LogSavedTo (js ''/workspaces/m365-test/logs/auth-2026-11-02T14-07-00-123Z.log''))] \<and>
   files (refusing_world example_log) (authLogPath plain_join Map.empty) = Some example_log \<and>
   files (fst (testATKExecution_step6 plain_join example_time (refusing_world example_log)))
     (js ''/workspaces/m365-test/logs/auth-2026-11-02T14-07-00-123Z.log'') = None \<and>
   copies (effects (fst (testATKExecution_step6 plain_join example_time
       (refusing_world example_log)))) =
     [(js ''/workspaces/m365-test/agents/myagent/auth.log'',
       js ''/workspaces/m365-test/logs/auth-2026-11-02T14-07-00-123Z.log'')] \<and>
   files (example_world (js ''Starting authentication'')) (authLogPath plain_join Map.empty) =
     Some (js ''Starting authentication'') \<and>
   files (fst (testATKExecution_step6 plain_join example_time
       (example_world (js ''Starting authentication''))))
     (js ''/workspaces/m365-test/logs/auth-2026-11-02T14-07-00-123Z.log'') = None \<and>
   copies (effects (fst (testATKExecution_step6 plain_join example_time
       (example_world (js ''Starting authentication''))))) = []"
proof -
  have 1: "files (example_world example_log)
      (authLogPath plain_join (process_env (example_world example_log))) = Some example_log"
    by (simp add: example_worlds example_paths)
  have 2: "files (refusing_world example_log)
      (authLogPath plain_join (process_env (refusing_world example_log))) = Some example_log"
    by (simp add: example_worlds example_paths)
  have 3: "files (example_world (js ''Starting authentication''))
      (authLogPath plain_join (process_env (example_world (js ''Starting authentication'')))) =
      Some (js ''Starting authentication'')"
    by (simp add: example_worlds example_paths)
  have u: "generatePortForwardingUrl Map.empty 3978 = Some (js ''http://localhost:3978'')"
    by (simp add: generatePortForwardingUrl_def truthy_def example_port_text js_def)
  from log_archived_when_url_found [OF 1, of example_time, THEN conjunct2]
  have a: "files (fst (testATKExecution_step6 plain_join example_time (example_world example_log)))
       (js ''/workspaces/m365-test/logs/auth-2026-11-02T14-07-00-123Z.log'') = Some example_log"
    "effects (fst (testATKExecution_step6 plain_join example_time (example_world example_log))) =
     [Print AuthLogContents, Print StartAuthLog, Print (Raw example_log), Print EndAuthLog,
      Print ExtractionSuccessful,
      Print (OAuthUrl
        (js ''https://login.microsoftonline.com/common/oauth2/v2.0/authorize?client_id=abc'')),
      Print (AuthServerPort 3978), Print (PublicAuthUrl (Some (js ''http://localhost:3978''))),
      Print AuthenticationInstructions, Print (Instruction 1), Print (Instruction 2),
      Print (Instruction 3), Print (Instruction 4),
      CopyFile (js ''/workspaces/m365-test/agents/myagent/auth.log'')
        (js ''/workspaces/m365-test/logs/auth-2026-11-02T14-07-00-123Z.log''),
      Print (LogSavedTo (js ''/workspaces/m365-test/logs/auth-2026-11-02T14-07-00-123Z.log''))]"
    by (simp_all add: example_worlds example_paths example_log_url example_log_port u)
  from log_archived_when_url_found [OF 2, of example_time, THEN conjunct2, THEN conjunct2]
  have b: "files (fst (testATKExecution_step6 plain_join example_time (refusing_world example_log)))
       (js ''/workspaces/m365-test/logs/auth-2026-11-02T14-07-00-123Z.log'') = None"
    "copies (effects (fst (testATKExecution_step6 plain_join example_time
       (refusing_world example_log)))) =
     [(js ''/workspaces/m365-test/agents/myagent/auth.log'',
       js ''/workspaces/m365-test/logs/auth-2026-11-02T14-07-00-123Z.log'')]"
    by (simp_all add: example_worlds example_paths example_log_url copies_def)
  from log_archived_when_url_found [OF 3, of example_time, THEN conjunct2, THEN conjunct2]
  have c: "files (fst (testATKExecution_step6 plain_join example_time
       (example_world (js ''Starting authentication''))))
       (js ''/workspaces/m365-test/logs/auth-2026-11-02T14-07-00-123Z.log'') = None"
    "copies (effects (fst (testATKExecution_step6 plain_join example_time
       (example_world (js ''Starting authentication''))))) = []"
    by (simp_all add: example_worlds example_paths no_url_example copies_def)
  from 1 2 3 a b c show ?thesis
    by (simp add: example_worlds)
qed

text \<open>
  The claim as it stands fails for a log that is read and holds no login URL: the
  sequence prints a preview of the log and copies nothing.
\<close>

theorem log_without_url_not_archived:
  "files (example_world (js ''Starting authentication''))
     (authLogPath plain_join (process_env (example_world (js ''Starting authentication'')))) =
     Some (js ''Starting authentication'') \<and>
   testATKExecution_step6 plain_join example_time (example_world (js ''Starting authentication'')) =
     (emit [Print AuthLogContents, Print StartAuthLog, Print (Raw (js ''Starting authentication'')),
            Print EndAuthLog, Print NoOAuthUrlFound,
            Print (LogPreview (js ''Starting authentication''))]
        (example_world (js ''Starting authentication'')),
      Continues) \<and>
   files (fst (testATKExecution_step6 plain_join example_time (example_world (js ''Starting authentication''))))
     (logFile plain_join (process_env (example_world (js ''Starting authentication''))) example_time) =
     None"
  by (simp add: example_worlds example_paths testATKExecution_step6_def readFile_def
      no_url_example truthy_def Let_def emit_def)

end
